theory Spec2Isabelle
  imports Complex_Main
begin

section \<open>Data feeder of the DETR model: targets, object indices, positional encodings\<close>

text \<open>
  The development embeds \<^verbatim>\<open>src/detr_models/detr/data_feeder.py\<close>.

  Arrays are nested lists in row-major order: a 2-d array is a list of rows, a 3-d array
  a list of 2-d arrays. Elements of floating-point arrays are real numbers: rounding to
  32 or 64 bits and the special values (NaN, infinities) are not part of the model. The
  properties below are about shapes, positions of elements and equality tests against a
  padding value, none of which rounds. Python integers are \<open>int\<close>; counts and
  positions that cannot be negative are \<open>nat\<close>.

  An exception, or an unchecked access outside an array, is a value \<open>Inl e\<close> of the
  result; a returned value is \<open>Inr v\<close>.
\<close>

subsection \<open>Errors\<close>

text \<open>
  \<open>ValueError\<close> and \<open>UnboundLocalError\<close> are the exceptions the statements of the
  source can raise.

  \<open>OutOfBounds\<close> is not an exception. \<open>labels_to_targets\<close> and
  \<open>retrieve_obj_indices\<close> are compiled by numba (the decorators at lines 179 and 221),
  and the compiled code checks no array index: an index past the end of an array is an
  access outside the array, and what the program does from there on is undefined. The
  model stops with \<open>OutOfBounds\<close> at such an access and says nothing about what
  follows; in particular it does not say that an IndexError is raised, as plain NumPy
  would.

  \<open>CapacityError\<close> is only named by the specification's error taxonomy; no statement of
  the source raises it. It is part of the type so that the specification's over-capacity
  policy can be written down and compared with the code.
\<close>

datatype error = ValueError | UnboundLocalError | OutOfBounds | CapacityError

subsection \<open>NumPy helpers\<close>

text \<open>\<^verbatim>\<open>np.full(shape=(n, m), fill_value=v)\<close>: a negative dimension raises ValueError.\<close>

definition np_full :: "int \<times> nat \<Rightarrow> real \<Rightarrow> error + real list list" where
  "np_full shape fill_value =
     (case shape of (n, m) \<Rightarrow>
        if n < 0 then Inl ValueError
        else Inr (replicate (nat n) (replicate m fill_value)))"

text \<open>
  \<^verbatim>\<open>a[idx] = v\<close> on a 2-d array with a scalar \<open>v\<close>: the scalar is broadcast over row
  \<open>idx\<close>. The index comes from \<^verbatim>\<open>enumerate\<close>, so it is never negative. The
  statement runs in compiled code without bounds checks: an index beyond the last row is
  an unchecked write outside the array, the outcome \<open>OutOfBounds\<close>.
\<close>

definition setitem_row_scalar :: "real list list \<Rightarrow> nat \<Rightarrow> real \<Rightarrow> error + real list list" where
  "setitem_row_scalar a idx v =
     (if idx < length a then Inr (a[idx := map (\<lambda>_. v) (a ! idx)]) else Inl OutOfBounds)"

text \<open>
  \<^verbatim>\<open>a[idx, :] = vs\<close> on a 2-d array with a tuple \<open>vs\<close>: row \<open>idx\<close> is overwritten; a
  tuple whose length differs from the row's cannot be broadcast (a tuple of one element
  apart) and raises ValueError. As above, an index beyond the last row is an unchecked
  write outside the array.
\<close>

definition setitem_row :: "real list list \<Rightarrow> nat \<Rightarrow> real list \<Rightarrow> error + real list list" where
  "setitem_row a idx vs =
     (if idx < length a then
        (if length vs = length (a ! idx) then Inr (a[idx := vs])
         else if length vs = 1 then Inr (a[idx := map (\<lambda>_. hd vs) (a ! idx)])
         else Inl ValueError)
      else Inl OutOfBounds)"

subsection \<open>labels\_to\_targets\<close>

text \<open>
  The loop \<^verbatim>\<open>for idx, labeled_obj in enumerate(sample_labels)\<close> of the source, with the
  two arrays it updates passed along. Unpacking a row that does not have exactly five
  elements raises ValueError.
\<close>

fun fill_targets ::
  "nat \<Rightarrow> real list list \<Rightarrow> real list list \<times> real list list
     \<Rightarrow> error + (real list list \<times> real list list)" where
  "fill_targets idx [] (sample_cls, sample_bbox) = Inr (sample_cls, sample_bbox)"
| "fill_targets idx (labeled_obj # rest) (sample_cls, sample_bbox) =
     (case labeled_obj of
        [cls_label, x, y, w, h] \<Rightarrow>
          (case setitem_row_scalar sample_cls idx cls_label of
             Inl e \<Rightarrow> Inl e
           | Inr sample_cls' \<Rightarrow>
               (case setitem_row sample_bbox idx [x, y, w, h] of
                  Inl e \<Rightarrow> Inl e
                | Inr sample_bbox' \<Rightarrow> fill_targets (Suc idx) rest (sample_cls', sample_bbox')))
      | _ \<Rightarrow> Inl ValueError)"

definition labels_to_targets ::
  "real list list \<Rightarrow> int \<Rightarrow> int \<Rightarrow> error + (real list list \<times> real list list)" where
  "labels_to_targets sample_labels num_queries num_classes =
     (case np_full (num_queries, 1) (of_int num_classes) of
        Inl e \<Rightarrow> Inl e
      | Inr sample_cls \<Rightarrow>
          (case np_full (num_queries, 4) (of_int num_classes) of
             Inl e \<Rightarrow> Inl e
           | Inr sample_bbox \<Rightarrow> fill_targets 0 sample_labels (sample_cls, sample_bbox)))"

text \<open>
  The specification's over-capacity policy (its section 7), in its own words: a sample with
  more objects than query slots is either rejected with a CapacityError or truncated to
  the first \<open>Q\<close> objects. This predicate is not part of the source; it states what the
  specification asks of a result.
\<close>

definition spec_capacity_policy ::
  "error + (real list list \<times> real list list) \<Rightarrow> real list list \<Rightarrow> int \<Rightarrow> int \<Rightarrow> bool" where
  "spec_capacity_policy result sample_labels num_queries num_classes =
     (result = Inl CapacityError
      \<or> result = labels_to_targets (take (nat num_queries) sample_labels) num_queries num_classes)"

subsection \<open>retrieve\_obj\_indices\<close>

text \<open>
  \<^verbatim>\<open>np.where(cond)[0]\<close> on a 2-d boolean array: the row index of every true element,
  in row-major order.
\<close>

definition np_where_rows :: "bool list list \<Rightarrow> nat list" where
  "np_where_rows cond =
     concat (map (\<lambda>(i, row). map (\<lambda>_. i) (filter (\<lambda>b. b) row)) (enumerate 0 cond))"

text \<open>
  The loop \<^verbatim>\<open>for idx in np.arange(0, batch_size, dtype=np.int32)\<close>. The state is the list
  \<open>obj_indices\<close> and the variable \<open>last_num_objects\<close>, which is unbound (\<open>None\<close>)
  until the first iteration assigns it. \<^verbatim>\<open>np.arange(start, upto, dtype=np.int32)\<close> of
  two counts is \<open>[start..<upto]\<close>; the counts are bounded by the number of array
  elements, far below \<open>2^31\<close>, so the 32-bit element type does not wrap.
  The object-presence test compares every slot with the literal \<^verbatim>\<open>4.0\<close>, as the source
  does; the function has no parameter for the padding value. The read \<^verbatim>\<open>batch_cls[idx]\<close>
  is unchecked in the compiled code; the loop only runs \<open>idx\<close> below the batch size, so
  the read is always inside the array.
\<close>

fun retrieve_loop ::
  "real list list list \<Rightarrow> nat list \<Rightarrow> nat list list \<times> nat option
     \<Rightarrow> error + (nat list list \<times> nat option)" where
  "retrieve_loop batch_cls [] (obj_indices, last_num_objects) =
     Inr (obj_indices, last_num_objects)"
| "retrieve_loop batch_cls (idx # idxs) (obj_indices, last_num_objects) =
     (if idx < length batch_cls then
        (let sample = batch_cls ! idx;
             object_indices = np_where_rows (map (map (\<lambda>v. v \<noteq> 4.0)) sample);
             num_objects_in_sample = length object_indices
         in if idx = 0 then
              retrieve_loop batch_cls idxs
                (obj_indices @ [[0..<num_objects_in_sample]], Some num_objects_in_sample)
            else
              (case last_num_objects of
                 None \<Rightarrow> Inl UnboundLocalError
               | Some n \<Rightarrow>
                   (let start = n; upto = n + num_objects_in_sample
                    in retrieve_loop batch_cls idxs
                         (obj_indices @ [[start..<upto]], Some upto))))
      else Inl OutOfBounds)"

definition retrieve_obj_indices :: "real list list list \<Rightarrow> error + nat list list" where
  "retrieve_obj_indices batch_cls =
     (let batch_size = length batch_cls
      in case retrieve_loop batch_cls [0..<batch_size] ([], None) of
           Inl e \<Rightarrow> Inl e
         | Inr (obj_indices, last_num_objects) \<Rightarrow> Inr obj_indices)"

text \<open>
  The number of objects the tracker counts in one sample: the slots that differ from the
  literal \<^verbatim>\<open>4.0\<close> (the value of \<open>num_objects_in_sample\<close> in the loop).
\<close>

definition num_objects :: "real list list \<Rightarrow> nat" where
  "num_objects sample = length (np_where_rows (map (map (\<lambda>v. v \<noteq> 4.0)) sample))"

text \<open>
  The number of slots of a sample that differ from a padding value \<open>C\<close>: the count the
  specification asks for, with the configured \<open>num_classes\<close> as \<open>C\<close>.
\<close>

definition non_sentinel_slots :: "int \<Rightarrow> real list list \<Rightarrow> nat" where
  "non_sentinel_slots C sample = length (filter (\<lambda>v. v \<noteq> of_int C) (concat sample))"

text \<open>
  The running offset before sample \<open>i\<close>: the objects counted in the samples before it.
\<close>

definition offset :: "real list list list \<Rightarrow> nat \<Rightarrow> nat" where
  "offset batch_cls i = sum_list (map num_objects (take i batch_cls))"

subsection \<open>create\_positional\_encodings\<close>

text \<open>\<^verbatim>\<open>np.arange(start, stop)\<close> on integers; empty when \<open>stop \<le> start\<close>.\<close>

definition np_arange :: "int \<Rightarrow> int \<Rightarrow> int list" where
  "np_arange start stop = [start..stop - 1]"

text \<open>
  \<^verbatim>\<open>np.repeat(a, repeats)\<close> along the first axis: every element \<open>repeats\<close> times in a
  row; a negative count raises ValueError.
\<close>

definition np_repeat :: "'a list \<Rightarrow> int \<Rightarrow> error + 'a list" where
  "np_repeat a repeats =
     (if repeats < 0 then Inl ValueError
      else Inr (concat (map (replicate (nat repeats)) a)))"

text \<open>Cutting a flat array into \<open>h\<close> rows of \<open>w\<close> elements, in row-major order.\<close>

fun rows_of :: "nat \<Rightarrow> nat \<Rightarrow> 'a list \<Rightarrow> 'a list list" where
  "rows_of 0 w a = []"
| "rows_of (Suc h) w a = take w a # rows_of h w (drop w a)"

text \<open>
  \<^verbatim>\<open>a.reshape(h, w)\<close> of a 1-d array: the sizes must agree. NumPy reads a dimension of
  \<open>-1\<close> as "infer it"; the model raises ValueError for every negative dimension. For the
  one call below the outcome is the same: with a negative height the next statement of
  the source, \<^verbatim>\<open>np.full\<close> with the same shape, raises ValueError, and with a negative
  width \<^verbatim>\<open>np.repeat\<close> has raised it before.
\<close>

definition reshape2 :: "'a list \<Rightarrow> int \<Rightarrow> int \<Rightarrow> error + 'a list list" where
  "reshape2 a h w =
     (if h < 0 \<or> w < 0 then Inl ValueError
      else if nat h * nat w \<noteq> length a then Inl ValueError
      else Inr (rows_of (nat h) (nat w) a))"

text \<open>
  \<^verbatim>\<open>np.full(shape=(h, w), fill_value=row)\<close> with a 1-d array as fill value: the row is
  broadcast to every one of the \<open>h\<close> rows; it must have \<open>w\<close> elements (or one).
\<close>

definition np_full_rows :: "int \<times> int \<Rightarrow> 'a list \<Rightarrow> error + 'a list list" where
  "np_full_rows shape fill_value =
     (case shape of (h, w) \<Rightarrow>
        if h < 0 \<or> w < 0 then Inl ValueError
        else if length fill_value = nat w then Inr (replicate (nat h) fill_value)
        else if length fill_value = 1 then Inr (replicate (nat h) (replicate (nat w) (hd fill_value)))
        else Inl ValueError)"

text \<open>
  Lines 286 and 287: \<^verbatim>\<open>div_term = np.arange(num_pos_feats)\<close>, then
  \<^verbatim>\<open>10000 ** (2 * (div_term // 2) / num_pos_feats)\<close>, element by element. The list is
  empty when \<open>num_pos_feats \<le> 0\<close>, so nothing is divided by zero.
\<close>

definition div_term :: "int \<Rightarrow> real list" where
  "div_term num_pos_feats =
     map (\<lambda>j. 10000 powr (real_of_int (2 * (j div 2)) / real_of_int num_pos_feats))
       (np_arange 0 num_pos_feats)"

text \<open>\<^verbatim>\<open>x_embed[:, :, None] / div_term\<close>: every grid cell divided by every divisor.\<close>

definition broadcast_div :: "int list list \<Rightarrow> real list \<Rightarrow> real list list list" where
  "broadcast_div grid divs = map (map (\<lambda>p. map (\<lambda>d. real_of_int p / d) divs)) grid"

text \<open>The slice \<^verbatim>\<open>a[0::2]\<close> of a 1-d array; \<^verbatim>\<open>a[1::2]\<close> is \<open>step2 (tl a)\<close>.\<close>

fun step2 :: "'a list \<Rightarrow> 'a list" where
  "step2 [] = []"
| "step2 [x] = [x]"
| "step2 (x # y # xs) = x # step2 xs"

text \<open>\<^verbatim>\<open>np.sin(pos[:, :, 0::2])\<close> and \<^verbatim>\<open>np.sin(pos[:, :, 1::2])\<close>.\<close>

definition sin_even :: "real list list list \<Rightarrow> real list list list" where
  "sin_even pos = map (map (\<lambda>c. map sin (step2 c))) pos"

definition sin_uneven :: "real list list list \<Rightarrow> real list list list" where
  "sin_uneven pos = map (map (\<lambda>c. map sin (step2 (tl c)))) pos"

text \<open>
  \<^verbatim>\<open>np.concatenate([a, b], axis=2)\<close> of two 3-d arrays that agree in the first two
  dimensions (here both come from the same grid).
\<close>

definition concatenate_axis2 :: "'a list list list \<Rightarrow> 'a list list list \<Rightarrow> 'a list list list" where
  "concatenate_axis2 a b = map2 (map2 (@)) a b"

text \<open>
  The function itself. \<^verbatim>\<open>np.expand_dims\<close> followed by \<^verbatim>\<open>np.repeat(..., batch_size, axis=0)\<close>
  repeats the one grid; the final \<^verbatim>\<open>tf.reshape\<close> to
  \<open>(batch_size, height * width, channels)\<close> flattens the rows of each grid in row-major
  order. The conversion to a 32-bit tensor does not change the shape and is the identity
  on the real-valued model.
\<close>

definition create_positional_encodings ::
  "int list \<Rightarrow> int \<Rightarrow> int \<Rightarrow> error + real list list list" where
  "create_positional_encodings fm_shape num_pos_feats batch_size =
     (case fm_shape of
        [height, width, c] \<Rightarrow>
          (case np_repeat (np_arange 1 (height + 1)) width of
             Inl e \<Rightarrow> Inl e
           | Inr repeated \<Rightarrow>
          (case reshape2 repeated height width of
             Inl e \<Rightarrow> Inl e
           | Inr y_embed \<Rightarrow>
          (case np_full_rows (height, width) (np_arange 1 (width + 1)) of
             Inl e \<Rightarrow> Inl e
           | Inr x_embed \<Rightarrow>
               (let pos_x = broadcast_div x_embed (div_term num_pos_feats);
                    pos_y = broadcast_div y_embed (div_term num_pos_feats);
                    pos_x' = concatenate_axis2 (sin_even pos_x) (sin_uneven pos_x);
                    pos_y' = concatenate_axis2 (sin_even pos_y) (sin_uneven pos_y);
                    positional_encodings = concatenate_axis2 pos_y' pos_x'
                in case np_repeat [positional_encodings] batch_size of
                     Inl e \<Rightarrow> Inl e
                   | Inr repeated_encodings \<Rightarrow> Inr (map concat repeated_encodings)))))
      | _ \<Rightarrow> Inl ValueError)"

text \<open>
  The channel of the divisor array that ends up at channel \<open>j\<close> of a block of \<open>F\<close>
  channels: the even channels \<open>0, 2, 4, ...\<close> come first, the uneven ones
  \<open>1, 3, 5, ...\<close> after them.
\<close>

definition even_then_uneven :: "nat \<Rightarrow> nat \<Rightarrow> nat" where
  "even_then_uneven F j = (if j < (F + 1) div 2 then 2 * j else 2 * (j - (F + 1) div 2) + 1)"

text \<open>
  The channels that lines 288 to 298 compute for one coordinate \<open>p\<close> of a grid cell:
  the coordinate divided by every divisor, then the sines of the even channels followed
  by the sines of the uneven channels. It is used to state the closed form of the
  function below.
\<close>

definition channel_block :: "int \<Rightarrow> int \<Rightarrow> real list" where
  "channel_block F p =
     (let pos = map (\<lambda>d. real_of_int p / d) (div_term F)
      in map sin (step2 pos) @ map sin (step2 (tl pos)))"

text \<open>
  The grid of line 300 in closed form: the cell in row \<open>y\<close> and column \<open>x\<close> (both
  counted from 1) holds the channels of \<open>y\<close> followed by the channels of \<open>x\<close>.
\<close>

definition encoding_grid :: "int \<Rightarrow> int \<Rightarrow> int \<Rightarrow> real list list list" where
  "encoding_grid H W F =
     map (\<lambda>y. map (\<lambda>x. channel_block F y @ channel_block F x) [1..W]) [1..H]"

subsection \<open>The DataFeeder class\<close>

text \<open>
  The fields of the class that the batch call reads. The storage path and the name only
  serve the file access, which is outside the model.
\<close>

record data_feeder =
  num_queries :: int
  num_classes :: int
  positional_encodings :: "real list list list"

text \<open>
  Lines 51 to 53 of the constructor: the positional encodings of a feeder are created
  from \<open>fm_shape\<close>, half of \<open>dim_transformer\<close> (Python's floor division) and the
  batch size.
\<close>

definition init_positional_encodings :: "int list \<Rightarrow> int \<Rightarrow> int \<Rightarrow> error + real list list list" where
  "init_positional_encodings fm_shape dim_transformer batch_size =
     create_positional_encodings fm_shape (dim_transformer div 2) batch_size"

text \<open>
  The batch call. \<open>load_data\<close> reads the images and labels from disk; its result
  \<open>batch_labels\<close>, one label array per sample, is the input here, and the images are left
  out. The loop runs over the samples in batch order and appends each sample's targets.
\<close>

fun call_loop ::
  "data_feeder \<Rightarrow> real list list list \<Rightarrow> real list list list \<times> real list list list
     \<Rightarrow> error + (real list list list \<times> real list list list)" where
  "call_loop self [] (batch_cls, batch_bbox) = Inr (batch_cls, batch_bbox)"
| "call_loop self (sample_labels # rest) (batch_cls, batch_bbox) =
     (case labels_to_targets sample_labels (num_queries self) (num_classes self) of
        Inl e \<Rightarrow> Inl e
      | Inr (sample_cls, sample_bbox) \<Rightarrow>
          call_loop self rest (batch_cls @ [sample_cls], batch_bbox @ [sample_bbox]))"

definition feeder_call ::
  "data_feeder \<Rightarrow> real list list list
     \<Rightarrow> error + (real list list list \<times> real list list list \<times> nat list list \<times> real list list list)" where
  "feeder_call self batch_labels =
     (case call_loop self batch_labels ([], []) of
        Inl e \<Rightarrow> Inl e
      | Inr (batch_cls, batch_bbox) \<Rightarrow>
          (case retrieve_obj_indices batch_cls of
             Inl e \<Rightarrow> Inl e
           | Inr obj_indices \<Rightarrow>
               Inr (batch_cls, batch_bbox, obj_indices, positional_encodings self)))"

subsection \<open>loadlabel\<close>

text \<open>
  \<^verbatim>\<open>numpy.loadtxt\<close> parses the label file; what it returns is the input of the model: a
  0-d array (one number), a 1-d array (one line, or one column) or a 2-d array (a list of
  rows of equal length).
\<close>

datatype ndarray = Array0 real | Array1 "real list" | Array2 "real list list"

fun shape :: "ndarray \<Rightarrow> nat list" where
  "shape (Array0 v) = []"
| "shape (Array1 vs) = [length vs]"
| "shape (Array2 rows) = [length rows, (case rows of [] \<Rightarrow> 0 | r # _ \<Rightarrow> length r)]"

text \<open>
  The statements after the parse: a 1-d array is reshaped to \<open>(1, 5)\<close>, which raises
  ValueError unless it has five elements; any other array is returned with its shape
  (converted to 32-bit floats, the identity here).
\<close>

definition loadlabel :: "ndarray \<Rightarrow> error + ndarray" where
  "loadlabel labels =
     (case labels of
        Array1 vs \<Rightarrow> (if length vs = 5 then Inr (Array2 [vs]) else Inl ValueError)
      | _ \<Rightarrow> Inr labels)"


section \<open>Properties of labels\_to\_targets\<close>

lemma row5_cases:
  assumes "length r = 5"
  obtains c x y w h where "r = [c, x, y, w, h]"
proof -
  from assms obtain c r1 where r: "r = c # r1" and "length r1 = 4"
    by (cases r) auto
  then obtain x r2 where r1: "r1 = x # r2" and "length r2 = 3"
    by (cases r1) auto
  then obtain y r3 where r2: "r2 = y # r3" and "length r3 = 2"
    by (cases r2) auto
  then obtain w r4 where r3: "r3 = w # r4" and "length r4 = 1"
    by (cases r3) auto
  then obtain h where "r4 = [h]"
    by (cases r4) auto
  with r r1 r2 r3 show thesis
    by (intro that) simp
qed

lemma fill_targets_closed_form:
  assumes "\<forall>r \<in> set labels. length r = 5"
    and "idx + length labels \<le> length cls"
    and "length bbox = length cls"
    and "\<forall>r \<in> set cls. length r = 1"
    and "\<forall>r \<in> set bbox. length r = 4"
  shows "fill_targets idx labels (cls, bbox) =
           Inr (take idx cls @ map (\<lambda>r. [hd r]) labels @ drop (idx + length labels) cls,
                take idx bbox @ map tl labels @ drop (idx + length labels) bbox)"
  using assms
proof (induction labels arbitrary: idx cls bbox)
  case Nil
  then show ?case by simp
next
  case (Cons r rest)
  from Cons.prems(1) have "length r = 5" by simp
  then obtain c x y w h where r: "r = [c, x, y, w, h]"
    by (rule row5_cases)
  from Cons.prems(2) have idx: "idx < length cls" by simp
  with Cons.prems(3) have idxb: "idx < length bbox" by simp
  from idx Cons.prems(4) have row1: "length (cls ! idx) = 1" by simp
  from idxb Cons.prems(5) have row4: "length (bbox ! idx) = 4" by simp
  define cls' where "cls' = cls[idx := [c]]"
  define bbox' where "bbox' = bbox[idx := [x, y, w, h]]"
  have c1: "setitem_row_scalar cls idx c = Inr cls'"
  proof -
    from row1 obtain v where "cls ! idx = [v]"
      by (cases "cls ! idx") auto
    with idx show ?thesis by (simp add: setitem_row_scalar_def cls'_def)
  qed
  have b1: "setitem_row bbox idx [x, y, w, h] = Inr bbox'"
    using idxb row4 by (simp add: setitem_row_def bbox'_def)
  have step: "fill_targets idx (r # rest) (cls, bbox) = fill_targets (Suc idx) rest (cls', bbox')"
    by (simp add: r c1 b1)
  have p1: "\<forall>r \<in> set rest. length r = 5" using Cons.prems(1) by simp
  have p2: "Suc idx + length rest \<le> length cls'" using Cons.prems(2) by (simp add: cls'_def)
  have p3: "length bbox' = length cls'" using Cons.prems(3) by (simp add: cls'_def bbox'_def)
  have p4: "\<forall>r \<in> set cls'. length r = 1"
    using Cons.prems(4) by (auto simp: cls'_def dest!: subsetD[OF set_update_subset_insert])
  have p5: "\<forall>r \<in> set bbox'. length r = 4"
    using Cons.prems(5) by (auto simp: bbox'_def dest!: subsetD[OF set_update_subset_insert])
  have t1: "take (Suc idx) cls' = take idx cls @ [[c]]"
    using idx by (simp add: cls'_def take_Suc_conv_app_nth)
  have t2: "take (Suc idx) bbox' = take idx bbox @ [[x, y, w, h]]"
    using idxb by (simp add: bbox'_def take_Suc_conv_app_nth)
  have d1: "drop (Suc idx + length rest) cls' = drop (Suc idx + length rest) cls"
    by (simp add: cls'_def)
  have d2: "drop (Suc idx + length rest) bbox' = drop (Suc idx + length rest) bbox"
    by (simp add: bbox'_def)
  show ?case
    unfolding step Cons.IH[OF p1 p2 p3 p4 p5] t1 t2 d1 d2
    by (simp add: r)
qed

lemma labels_to_targets_closed_form:
  assumes "\<forall>r \<in> set labels. length r = 5" and "length labels \<le> Q"
  shows "labels_to_targets labels (int Q) C =
           Inr (map (\<lambda>r. [hd r]) labels @ replicate (Q - length labels) [of_int C],
                map tl labels
                  @ replicate (Q - length labels) [of_int C, of_int C, of_int C, of_int C])"
proof -
  have "fill_targets 0 labels (replicate Q [of_int C], replicate Q (replicate 4 (of_int C))) =
          Inr (take 0 (replicate Q [of_int C]) @ map (\<lambda>r. [hd r]) labels
                 @ drop (0 + length labels) (replicate Q [of_int C]),
               take 0 (replicate Q (replicate 4 (of_int C))) @ map tl labels
                 @ drop (0 + length labels) (replicate Q (replicate 4 (of_int C))))"
    using assms by (intro fill_targets_closed_form) auto
  then show ?thesis
    by (simp add: labels_to_targets_def np_full_def numeral_eq_Suc)
qed

text \<open>
  Claim C2. For a label array of \<open>k\<close> rows of five columns with \<open>k \<le> Q\<close>,
  \<open>labels_to_targets\<close> returns a class target of \<open>Q\<close> rows (of one element each) and a
  box target of \<open>Q\<close> rows of four elements. Slot \<open>idx < k\<close> holds the class and the box
  \<open>(x, y, w, h)\<close> of the \<open>idx\<close>-th input row, in input order; every slot from \<open>k\<close> on
  holds the padding value \<open>C\<close>, four times in the box target.
\<close>

theorem labels_to_targets_padded_targets:
  assumes "\<forall>r \<in> set labels. length r = 5" and "length labels \<le> Q"
  shows "\<exists>class_target bbox_target.
           labels_to_targets labels (int Q) C = Inr (class_target, bbox_target)
           \<and> length class_target = Q
           \<and> length bbox_target = Q
           \<and> (\<forall>row \<in> set class_target. length row = 1)
           \<and> (\<forall>row \<in> set bbox_target. length row = 4)
           \<and> (\<forall>idx < length labels.
                  class_target ! idx = [labels ! idx ! 0]
                  \<and> bbox_target ! idx
                      = [labels ! idx ! 1, labels ! idx ! 2, labels ! idx ! 3, labels ! idx ! 4])
           \<and> (\<forall>idx. length labels \<le> idx \<and> idx < Q \<longrightarrow>
                  class_target ! idx = [of_int C]
                  \<and> bbox_target ! idx = [of_int C, of_int C, of_int C, of_int C])"
proof -
  let ?ct = "map (\<lambda>r. [hd r]) labels @ replicate (Q - length labels) [of_int C :: real]"
  let ?bt = "map tl labels
               @ replicate (Q - length labels) [of_int C :: real, of_int C, of_int C, of_int C]"
  have run: "labels_to_targets labels (int Q) C = Inr (?ct, ?bt)"
    using assms by (rule labels_to_targets_closed_form)
  have len: "length ?ct = Q" "length ?bt = Q"
    using assms(2) by simp_all
  have rows1: "\<forall>row \<in> set ?ct. length row = 1"
    by auto
  have rows4: "\<forall>row \<in> set ?bt. length row = 4"
    using assms(1) by auto
  have objs: "\<forall>idx < length labels.
                ?ct ! idx = [labels ! idx ! 0]
                \<and> ?bt ! idx = [labels ! idx ! 1, labels ! idx ! 2, labels ! idx ! 3, labels ! idx ! 4]"
  proof (intro allI impI)
    fix idx assume idx: "idx < length labels"
    with assms(1) have "length (labels ! idx) = 5" by simp
    then obtain c x y w h where "labels ! idx = [c, x, y, w, h]"
      by (rule row5_cases)
    with idx show "?ct ! idx = [labels ! idx ! 0]
        \<and> ?bt ! idx = [labels ! idx ! 1, labels ! idx ! 2, labels ! idx ! 3, labels ! idx ! 4]"
      by (simp add: nth_append)
  qed
  have pad: "\<forall>idx. length labels \<le> idx \<and> idx < Q \<longrightarrow>
               ?ct ! idx = [of_int C] \<and> ?bt ! idx = [of_int C, of_int C, of_int C, of_int C]"
    by (auto simp: nth_append)
  from run len rows1 rows4 objs pad show ?thesis
    by blast
qed

text \<open>
  Claim C2, witness. The specification's first example: two objects, five query slots,
  padding value 2.
\<close>

theorem labels_to_targets_padded_targets_witness:
  "\<exists>bbox_target.
     labels_to_targets [[0, 0.5, 0.5, 0.2, 0.2], [1, 0.1, 0.1, 0.05, 0.05]] 5 2
       = Inr ([[0], [1], [2], [2], [2]], bbox_target)
     \<and> bbox_target ! 1 = [0.1, 0.1, 0.05, 0.05]
     \<and> bbox_target ! 2 = [2, 2, 2, 2]
     \<and> bbox_target ! 3 = [2, 2, 2, 2]
     \<and> bbox_target ! 4 = [2, 2, 2, 2]"
proof -
  let ?labels = "[[0, 0.5, 0.5, 0.2, 0.2], [1, 0.1, 0.1, 0.05, 0.05 :: real]]"
  have rows: "\<forall>r \<in> set ?labels. length r = 5" by simp
  have cap: "length ?labels \<le> 5" by simp
  from labels_to_targets_padded_targets [OF rows cap, of 2]
  obtain ct bt where run: "labels_to_targets ?labels (int 5) 2 = Inr (ct, bt)"
    and len: "length ct = 5"
    and rows1: "\<forall>row \<in> set ct. length row = 1"
    and objs: "\<forall>idx < length ?labels. ct ! idx = [?labels ! idx ! 0]
                 \<and> bt ! idx = [?labels ! idx ! 1, ?labels ! idx ! 2, ?labels ! idx ! 3, ?labels ! idx ! 4]"
    and pad: "\<forall>idx. length ?labels \<le> idx \<and> idx < 5 \<longrightarrow>
                 ct ! idx = [of_int 2] \<and> bt ! idx = [of_int 2, of_int 2, of_int 2, of_int 2]"
    by blast
  from objs have o0: "ct ! 0 = [0]" and o1: "ct ! 1 = [1]" "bt ! 1 = [0.1, 0.1, 0.05, 0.05]"
    by simp_all
  from pad have p: "ct ! 2 = [2]" "ct ! 3 = [2]" "ct ! 4 = [2]"
      "bt ! 2 = [2, 2, 2, 2]" "bt ! 3 = [2, 2, 2, 2]" "bt ! 4 = [2, 2, 2, 2]"
    by simp_all
  have "ct = [ct ! 0, ct ! 1, ct ! 2, ct ! 3, ct ! 4]"
    using len by (intro nth_equalityI) (auto simp: nth_Cons' less_Suc_eq numeral_eq_Suc)
  with o0 o1 p have "ct = [[0], [1], [2], [2], [2]]" by simp
  with run o1 p show ?thesis by simp
qed

lemma fill_targets_over_capacity:
  assumes "\<forall>r \<in> set labels. length r = 5"
    and "length cls < idx + length labels"
    and "idx \<le> length cls"
    and "length bbox = length cls"
    and "\<forall>r \<in> set cls. length r = 1"
    and "\<forall>r \<in> set bbox. length r = 4"
  shows "fill_targets idx labels (cls, bbox) = Inl OutOfBounds"
  using assms
proof (induction labels arbitrary: idx cls bbox)
  case Nil
  then show ?case by simp
next
  case (Cons r rest)
  from Cons.prems(1) have "length r = 5" by simp
  then obtain c x y w h where r: "r = [c, x, y, w, h]"
    by (rule row5_cases)
  show ?case
  proof (cases "idx < length cls")
    case False
    then show ?thesis by (simp add: r setitem_row_scalar_def)
  next
    case True
    with Cons.prems(4) have idxb: "idx < length bbox" by simp
    from True Cons.prems(5) have row1: "length (cls ! idx) = 1" by simp
    from idxb Cons.prems(6) have row4: "length (bbox ! idx) = 4" by simp
    define cls' where "cls' = cls[idx := map (\<lambda>_. c) (cls ! idx)]"
    define bbox' where "bbox' = bbox[idx := [x, y, w, h]]"
    have step: "fill_targets idx (r # rest) (cls, bbox) = fill_targets (Suc idx) rest (cls', bbox')"
      using True idxb row4 by (simp add: r setitem_row_scalar_def setitem_row_def cls'_def bbox'_def)
    have p1: "\<forall>r \<in> set rest. length r = 5" using Cons.prems(1) by simp
    have p2: "length cls' < Suc idx + length rest" using Cons.prems(2) by (simp add: cls'_def)
    have p3: "Suc idx \<le> length cls'" using True by (simp add: cls'_def)
    have p4: "length bbox' = length cls'" using Cons.prems(4) by (simp add: cls'_def bbox'_def)
    have p5: "\<forall>r \<in> set cls'. length r = 1"
      using Cons.prems(5) row1 by (auto simp: cls'_def dest!: subsetD[OF set_update_subset_insert])
    have p6: "\<forall>r \<in> set bbox'. length r = 4"
      using Cons.prems(6) by (auto simp: bbox'_def dest!: subsetD[OF set_update_subset_insert])
    show ?thesis
      unfolding step by (rule Cons.IH[OF p1 p2 p3 p4 p5 p6])
  qed
qed

lemma labels_to_targets_reaches_out_of_bounds:
  assumes "\<forall>r \<in> set labels. length r = 5" and "Q < length labels"
  shows "labels_to_targets labels (int Q) C = Inl OutOfBounds"
proof -
  have "fill_targets 0 labels (replicate Q [of_int C], replicate Q (replicate 4 (of_int C)))
          = Inl OutOfBounds"
    using assms by (intro fill_targets_over_capacity) auto
  then show ?thesis
    by (simp add: labels_to_targets_def np_full_def numeral_eq_Suc)
qed

text \<open>
  Claim C7 does not hold of the code. The loop of \<open>labels_to_targets\<close> has no capacity
  check: every label array with more than \<open>Q\<close> rows of five columns drives it to the
  write at slot \<open>Q\<close>, one past the last row of both target arrays (lemma
  \<open>labels_to_targets_reaches_out_of_bounds\<close>), and the compiled code does not check the
  index. With two objects and one query slot the outcome is that unchecked write outside
  the arrays: not a CapacityError, and not the targets of the label array truncated to
  the first \<open>Q\<close> objects.
\<close>

theorem labels_to_targets_unchecked_write:
  "labels_to_targets [[0, 0.5, 0.5, 0.2, 0.2], [1, 0.1, 0.1, 0.05, 0.05]] 1 2 = Inl OutOfBounds
   \<and> \<not> spec_capacity_policy
         (labels_to_targets [[0, 0.5, 0.5, 0.2, 0.2], [1, 0.1, 0.1, 0.05, 0.05]] 1 2)
         [[0, 0.5, 0.5, 0.2, 0.2], [1, 0.1, 0.1, 0.05, 0.05]] 1 2"
proof -
  let ?labels = "[[0, 0.5, 0.5, 0.2, 0.2], [1, 0.1, 0.1, 0.05, 0.05 :: real]]"
  have rows: "\<forall>r \<in> set ?labels. length r = 5" by simp
  have over: "1 < length ?labels" by simp
  from labels_to_targets_reaches_out_of_bounds [OF rows over, of 2]
  have run: "labels_to_targets ?labels 1 2 = Inl OutOfBounds" by simp
  have "labels_to_targets (take (nat 1) ?labels) 1 2 \<noteq> Inl OutOfBounds"
    by (simp add: labels_to_targets_def np_full_def setitem_row_scalar_def setitem_row_def)
  with run show ?thesis
    by (simp add: spec_capacity_policy_def)
qed

section \<open>Properties of retrieve\_obj\_indices\<close>

lemma length_np_where_rows_aux:
  "length (concat (map (\<lambda>(i, row). map (\<lambda>_. i) (filter (\<lambda>b. b) row)) (enumerate n cond)))
     = length (filter (\<lambda>b. b) (concat cond))"
  by (induction cond arbitrary: n) simp_all

lemma length_np_where_rows:
  "length (np_where_rows cond) = length (filter (\<lambda>b. b) (concat cond))"
  by (simp only: np_where_rows_def length_np_where_rows_aux)

lemma num_objects_eq: "num_objects sample = non_sentinel_slots 4 sample"
proof -
  have "concat (map (map (\<lambda>v. v \<noteq> 4)) sample) = map (\<lambda>v. v \<noteq> 4) (concat sample)"
    by (simp add: map_concat)
  then have "num_objects sample = length (filter (\<lambda>b. b) (map (\<lambda>v. v \<noteq> 4) (concat sample)))"
    by (simp add: num_objects_def length_np_where_rows)
  also have "\<dots> = length (filter (\<lambda>v. v \<noteq> 4) (concat sample))"
    by (simp add: filter_map comp_def)
  finally show ?thesis
    by (simp add: non_sentinel_slots_def)
qed

lemma retrieve_loop_append:
  "retrieve_loop batch_cls (xs @ ys) st =
     (case retrieve_loop batch_cls xs st of
        Inl e \<Rightarrow> Inl e
      | Inr st' \<Rightarrow> retrieve_loop batch_cls ys st')"
proof (induction xs arbitrary: st)
  case Nil
  show ?case by (cases st) simp
next
  case (Cons idx xs)
  show ?case
    by (cases st) (simp add: Cons.IH Let_def split: option.splits)
qed

lemma offset_0: "offset batch_cls 0 = 0"
  by (simp add: offset_def)

lemma offset_Suc:
  "i < length batch_cls \<Longrightarrow> offset batch_cls (Suc i) = offset batch_cls i + num_objects (batch_cls ! i)"
  by (simp add: offset_def take_Suc_conv_app_nth)

lemma offset_all: "offset batch_cls (length batch_cls) = sum_list (map num_objects batch_cls)"
  by (simp add: offset_def)

lemma retrieve_loop_prefix:
  assumes "n \<le> length batch_cls"
  shows "retrieve_loop batch_cls [0..<n] ([], None) =
           Inr (map (\<lambda>i. [offset batch_cls i ..< offset batch_cls (Suc i)]) [0..<n],
                if n = 0 then None else Some (offset batch_cls n))"
  using assms
proof (induction n)
  case 0
  show ?case by simp
next
  case (Suc n)
  then have n: "n < length batch_cls" and IH: "retrieve_loop batch_cls [0..<n] ([], None) =
           Inr (map (\<lambda>i. [offset batch_cls i ..< offset batch_cls (Suc i)]) [0..<n],
                if n = 0 then None else Some (offset batch_cls n))"
    by simp_all
  have split: "[0..<Suc n] = [0..<n] @ [n]" by simp
  show ?case
    unfolding split retrieve_loop_append IH
    using n by (simp add: Let_def offset_Suc offset_0 num_objects_def)
qed

lemma retrieve_obj_indices_ranges:
  "retrieve_obj_indices batch_cls =
     Inr (map (\<lambda>i. [offset batch_cls i ..< offset batch_cls (Suc i)]) [0..<length batch_cls])"
  by (simp add: retrieve_obj_indices_def Let_def retrieve_loop_prefix)

lemma concat_ranges:
  "n \<le> length batch_cls \<Longrightarrow>
     concat (map (\<lambda>i. [offset batch_cls i ..< offset batch_cls (Suc i)]) [0..<n])
       = [0 ..< offset batch_cls n]"
proof (induction n)
  case 0
  show ?case by (simp add: offset_0)
next
  case (Suc n)
  then have n: "n < length batch_cls" by simp
  have "[0 ..< offset batch_cls n] @ [offset batch_cls n ..< offset batch_cls (Suc n)]
          = [0 ..< offset batch_cls (Suc n)]"
    using n upt_add_eq_append [of 0 "offset batch_cls n" "num_objects (batch_cls ! n)"]
    by (simp add: offset_Suc)
  with Suc show ?case by simp
qed

text \<open>
  The partition structure of the result, in terms of the counts the tracker itself makes.
  For every batch, \<open>retrieve_obj_indices\<close> returns one range per sample, in batch
  order. With \<open>n_i = num_objects\<close> of sample \<open>i\<close> (its slots that differ from the
  literal 4.0), the range of sample \<open>i\<close> starts at \<open>n_0 + ... + n_(i-1)\<close> and has
  \<open>n_i\<close> elements. The ranges concatenate to \<open>0, ..., sum n_i - 1\<close>, without gaps,
  and no index occurs twice. The counts \<open>n_i\<close> are the non-padding slots only when the
  padding value is 4.
\<close>

theorem retrieve_obj_indices_partition:
  "\<exists>obj_indices.
     retrieve_obj_indices batch_cls = Inr obj_indices
     \<and> length obj_indices = length batch_cls
     \<and> (\<forall>i < length batch_cls.
           obj_indices ! i
             = [sum_list (map num_objects (take i batch_cls))
                  ..< sum_list (map num_objects (take i batch_cls)) + num_objects (batch_cls ! i)]
           \<and> num_objects (batch_cls ! i) = non_sentinel_slots 4 (batch_cls ! i))
     \<and> concat obj_indices = [0 ..< sum_list (map num_objects batch_cls)]
     \<and> distinct (concat obj_indices)"
proof -
  let ?r = "map (\<lambda>i. [offset batch_cls i ..< offset batch_cls (Suc i)]) [0..<length batch_cls]"
  have run: "retrieve_obj_indices batch_cls = Inr ?r"
    by (rule retrieve_obj_indices_ranges)
  have len: "length ?r = length batch_cls" by simp
  have each: "\<forall>i < length batch_cls.
      ?r ! i = [sum_list (map num_objects (take i batch_cls))
                  ..< sum_list (map num_objects (take i batch_cls)) + num_objects (batch_cls ! i)]
      \<and> num_objects (batch_cls ! i) = non_sentinel_slots 4 (batch_cls ! i)"
    by (simp add: offset_Suc num_objects_eq) (simp add: offset_def)
  have cat: "concat ?r = [0 ..< sum_list (map num_objects batch_cls)]"
    using concat_ranges [of "length batch_cls" batch_cls] by (simp add: offset_all)
  have dist: "distinct (concat ?r)"
    unfolding cat by simp
  from run len each cat dist show ?thesis
    by blast
qed

text \<open>
  The docstring's example with padding value 4: three samples with 1, 3 and 1 objects
  give \<open>[[0], [1, 2, 3], [4]]\<close>.
\<close>

theorem retrieve_obj_indices_partition_example:
  "retrieve_obj_indices [[[0], [4], [4]], [[1], [0], [2]], [[3], [4], [4]]]
     = Inr [[0], [1, 2, 3], [4]]"
proof -
  let ?b = "[[[0], [4], [4]], [[1], [0], [2]], [[3], [4], [4 :: real]]]"
  have k: "num_objects [[0], [4], [4]] = 1" "num_objects [[1], [0], [2]] = 3"
      "num_objects [[3], [4], [4]] = 1"
    by (simp_all add: num_objects_eq non_sentinel_slots_def)
  from retrieve_obj_indices_partition [of ?b]
  obtain r where run: "retrieve_obj_indices ?b = Inr r" and len: "length r = length ?b"
    and each: "\<forall>i < length ?b. r ! i = [sum_list (map num_objects (take i ?b))
                  ..< sum_list (map num_objects (take i ?b)) + num_objects (?b ! i)]
                \<and> num_objects (?b ! i) = non_sentinel_slots 4 (?b ! i)"
    by blast
  have u: "[0..<1] = [0 :: nat]" "[1..<4] = [1, 2, 3 :: nat]" "[4..<5] = [4 :: nat]"
    by code_simp+
  from each have "r ! 0 = [0..<1]"
    using k by simp
  then have r0: "r ! 0 = [0]" by (simp only: u)
  from each have "r ! 1 = [sum_list (map num_objects (take 1 ?b))
                  ..< sum_list (map num_objects (take 1 ?b)) + num_objects (?b ! 1)]"
    by simp
  then have "r ! 1 = [1..<4]"
    using k by simp
  then have r1: "r ! 1 = [1, 2, 3]" by (simp only: u)
  from each have "r ! 2 = [sum_list (map num_objects (take 2 ?b))
                  ..< sum_list (map num_objects (take 2 ?b)) + num_objects (?b ! 2)]"
    by simp
  then have "r ! 2 = [4..<5]"
    using k by (simp add: numeral_2_eq_2)
  then have r2: "r ! 2 = [4]" by (simp only: u)
  have "r = [r ! 0, r ! 1, r ! 2]"
    using len by (intro nth_equalityI) (auto simp: nth_Cons' less_Suc_eq numeral_eq_Suc)
  with r0 r1 r2 run show ?thesis by simp
qed

text \<open>
  Claim C3 does not hold of the code: the ranges follow the tracker's counts, and those
  are not the per-sample object counts unless the padding value is 4. With
  \<open>num_queries = 3\<close> and \<open>num_classes = 2\<close>, three samples with 1, 3 and 1 objects
  have class targets with 1, 3 and 1 slots that differ from the padding value 2; the
  claim's ranges are \<open>[[0], [1, 2, 3], [4]]\<close>, and the tracker, which counts every
  slot as an object, returns \<open>[[0, 1, 2], [3, 4, 5], [6, 7, 8]]\<close>, also when it is
  reached through the batch call. It is the defect of claim C1.
\<close>

theorem retrieve_obj_indices_counts_every_slot:
  "labels_to_targets [[0, 0.5, 0.5, 0.2, 0.2]] 3 2
     = Inr ([[0], [2], [2]], [[0.5, 0.5, 0.2, 0.2], [2, 2, 2, 2], [2, 2, 2, 2]])
   \<and> labels_to_targets
        [[1, 0.1, 0.1, 0.05, 0.05], [0, 0.3, 0.3, 0.1, 0.1], [1, 0.7, 0.7, 0.2, 0.2]] 3 2
     = Inr ([[1], [0], [1]],
            [[0.1, 0.1, 0.05, 0.05], [0.3, 0.3, 0.1, 0.1], [0.7, 0.7, 0.2, 0.2]])
   \<and> labels_to_targets [[1, 0.9, 0.9, 0.1, 0.1]] 3 2
     = Inr ([[1], [2], [2]], [[0.9, 0.9, 0.1, 0.1], [2, 2, 2, 2], [2, 2, 2, 2]])
   \<and> map (non_sentinel_slots 2) [[[0], [2], [2]], [[1], [0], [1]], [[1], [2], [2]]] = [1, 3, 1]
   \<and> retrieve_obj_indices [[[0], [2], [2]], [[1], [0], [1]], [[1], [2], [2]]]
     = Inr [[0, 1, 2], [3, 4, 5], [6, 7, 8]]
   \<and> feeder_call \<lparr>num_queries = 3, num_classes = 2, positional_encodings = []\<rparr>
        [[[0, 0.5, 0.5, 0.2, 0.2]],
         [[1, 0.1, 0.1, 0.05, 0.05], [0, 0.3, 0.3, 0.1, 0.1], [1, 0.7, 0.7, 0.2, 0.2]],
         [[1, 0.9, 0.9, 0.1, 0.1]]]
     = Inr ([[[0], [2], [2]], [[1], [0], [1]], [[1], [2], [2]]],
            [[[0.5, 0.5, 0.2, 0.2], [2, 2, 2, 2], [2, 2, 2, 2]],
             [[0.1, 0.1, 0.05, 0.05], [0.3, 0.3, 0.1, 0.1], [0.7, 0.7, 0.2, 0.2]],
             [[0.9, 0.9, 0.1, 0.1], [2, 2, 2, 2], [2, 2, 2, 2]]],
            [[0, 1, 2], [3, 4, 5], [6, 7, 8]], [])"
proof -
  have e1: "labels_to_targets [[0, 0.5, 0.5, 0.2, 0.2]] 3 2
     = Inr ([[0], [2], [2]], [[0.5, 0.5, 0.2, 0.2], [2, 2, 2, 2], [2, 2, 2, 2]])"
    by (simp add: labels_to_targets_def np_full_def setitem_row_scalar_def setitem_row_def
        numeral_eq_Suc)
  have e2: "labels_to_targets
        [[1, 0.1, 0.1, 0.05, 0.05], [0, 0.3, 0.3, 0.1, 0.1], [1, 0.7, 0.7, 0.2, 0.2]] 3 2
     = Inr ([[1], [0], [1]],
            [[0.1, 0.1, 0.05, 0.05], [0.3, 0.3, 0.1, 0.1], [0.7, 0.7, 0.2, 0.2]])"
    by (simp add: labels_to_targets_def np_full_def setitem_row_scalar_def setitem_row_def
        numeral_eq_Suc)
  have e3: "labels_to_targets [[1, 0.9, 0.9, 0.1, 0.1]] 3 2
     = Inr ([[1], [2], [2]], [[0.9, 0.9, 0.1, 0.1], [2, 2, 2, 2], [2, 2, 2, 2]])"
    by (simp add: labels_to_targets_def np_full_def setitem_row_scalar_def setitem_row_def
        numeral_eq_Suc)
  have cnt: "map (non_sentinel_slots 2) [[[0], [2], [2]], [[1], [0], [1]], [[1], [2], [2]]]
               = [1, 3, 1]"
    by (simp add: non_sentinel_slots_def)
  have idx: "retrieve_obj_indices [[[0], [2], [2]], [[1], [0], [1]], [[1], [2], [2]]]
     = Inr [[0, 1, 2], [3, 4, 5], [6, 7, 8]]"
    by (simp add: retrieve_obj_indices_def np_where_rows_def)
  have call: "feeder_call \<lparr>num_queries = 3, num_classes = 2, positional_encodings = []\<rparr>
        [[[0, 0.5, 0.5, 0.2, 0.2]],
         [[1, 0.1, 0.1, 0.05, 0.05], [0, 0.3, 0.3, 0.1, 0.1], [1, 0.7, 0.7, 0.2, 0.2]],
         [[1, 0.9, 0.9, 0.1, 0.1]]]
     = Inr ([[[0], [2], [2]], [[1], [0], [1]], [[1], [2], [2]]],
            [[[0.5, 0.5, 0.2, 0.2], [2, 2, 2, 2], [2, 2, 2, 2]],
             [[0.1, 0.1, 0.05, 0.05], [0.3, 0.3, 0.1, 0.1], [0.7, 0.7, 0.2, 0.2]],
             [[0.9, 0.9, 0.1, 0.1], [2, 2, 2, 2], [2, 2, 2, 2]]],
            [[0, 1, 2], [3, 4, 5], [6, 7, 8]], [])"
    by (simp add: feeder_call_def e1 [simplified] e2 [simplified] e3 [simplified]
        idx [simplified])
  from e1 e2 e3 cnt idx call show ?thesis by simp
qed

text \<open>
  Claim C1 does not hold of the code: the presence test compares with the literal 4.0 and
  never sees \<open>num_classes\<close>. For the specification's first example (two objects, five
  query slots, \<open>num_classes = 2\<close>) the class target has two slots that differ from the
  padding value 2, but the tracker counts all five slots as objects, also when it is
  reached through the batch call of a feeder configured with \<open>num_classes = 2\<close>.
\<close>

theorem retrieve_obj_indices_ignores_num_classes:
  "labels_to_targets [[0, 0.5, 0.5, 0.2, 0.2], [1, 0.1, 0.1, 0.05, 0.05]] 5 2
     = Inr ([[0], [1], [2], [2], [2]],
            [[0.5, 0.5, 0.2, 0.2], [0.1, 0.1, 0.05, 0.05], [2, 2, 2, 2], [2, 2, 2, 2], [2, 2, 2, 2]])
   \<and> non_sentinel_slots 2 [[0], [1], [2], [2], [2]] = 2
   \<and> retrieve_obj_indices [[[0], [1], [2], [2], [2]]] = Inr [[0, 1, 2, 3, 4]]
   \<and> feeder_call \<lparr>num_queries = 5, num_classes = 2, positional_encodings = []\<rparr>
        [[[0, 0.5, 0.5, 0.2, 0.2], [1, 0.1, 0.1, 0.05, 0.05]]]
      = Inr ([[[0], [1], [2], [2], [2]]],
             [[[0.5, 0.5, 0.2, 0.2], [0.1, 0.1, 0.05, 0.05], [2, 2, 2, 2], [2, 2, 2, 2], [2, 2, 2, 2]]],
             [[0, 1, 2, 3, 4]], [])"
proof -
  have enc: "labels_to_targets [[0, 0.5, 0.5, 0.2, 0.2], [1, 0.1, 0.1, 0.05, 0.05]] 5 2
     = Inr ([[0], [1], [2], [2], [2]],
            [[0.5, 0.5, 0.2, 0.2], [0.1, 0.1, 0.05, 0.05], [2, 2, 2, 2], [2, 2, 2, 2], [2, 2, 2, 2]])"
    by (simp add: labels_to_targets_def np_full_def setitem_row_scalar_def setitem_row_def
        numeral_eq_Suc)
  have cnt: "non_sentinel_slots 2 [[0], [1], [2], [2], [2]] = 2"
    by (simp add: non_sentinel_slots_def)
  have idx: "retrieve_obj_indices [[[0], [1], [2], [2], [2]]] = Inr [[0, 1, 2, 3, 4]]"
    by (simp add: retrieve_obj_indices_def np_where_rows_def)
  have call: "feeder_call \<lparr>num_queries = 5, num_classes = 2, positional_encodings = []\<rparr>
        [[[0, 0.5, 0.5, 0.2, 0.2], [1, 0.1, 0.1, 0.05, 0.05]]]
      = Inr ([[[0], [1], [2], [2], [2]]],
             [[[0.5, 0.5, 0.2, 0.2], [0.1, 0.1, 0.05, 0.05], [2, 2, 2, 2], [2, 2, 2, 2], [2, 2, 2, 2]]],
             [[0, 1, 2, 3, 4]], [])"
    by (simp add: feeder_call_def enc[simplified] idx[simplified])
  from enc cnt idx call show ?thesis by simp
qed

section \<open>Properties of create\_positional\_encodings\<close>

lemma length_concat_replicate: "length (concat (map (replicate w) ys)) = length ys * w"
  by (induction ys) simp_all

lemma rows_of_concat_replicate:
  "rows_of (length ys) w (concat (map (replicate w) ys)) = map (replicate w) ys"
  by (induction ys) simp_all

lemma map2_same: "map2 f (map g xs) (map h xs) = map (\<lambda>x. f (g x) (h x)) xs"
  by (induction xs) simp_all

lemma map2_replicate_left: "map2 f (replicate (length xs) a) (map g xs) = map (\<lambda>x. f a (g x)) xs"
  by (induction xs) simp_all

lemma map2_replicate_right: "map2 f (map g ys) (replicate (length ys) r) = map (\<lambda>y. f (g y) r) ys"
  by (induction ys) simp_all

lemma sin_even_uneven:
  "concatenate_axis2 (sin_even pos) (sin_uneven pos)
     = map (map (\<lambda>c. map sin (step2 c) @ map sin (step2 (tl c)))) pos"
  by (simp add: concatenate_axis2_def sin_even_def sin_uneven_def map2_same)

lemma y_embed_eq:
  assumes "0 \<le> H" and "0 \<le> W"
  shows "np_repeat (np_arange 1 (H + 1)) W = Inr (concat (map (replicate (nat W)) [1..H]))"
    and "reshape2 (concat (map (replicate (nat W)) [1..H])) H W = Inr (map (replicate (nat W)) [1..H])"
proof -
  show "np_repeat (np_arange 1 (H + 1)) W = Inr (concat (map (replicate (nat W)) [1..H]))"
    using assms by (simp add: np_repeat_def np_arange_def)
  have len: "length [1..H] = nat H"
    using assms by simp
  have "rows_of (length [1..H]) (nat W) (concat (map (replicate (nat W)) [1..H]))
          = map (replicate (nat W)) [1..H]"
    by (rule rows_of_concat_replicate)
  then show "reshape2 (concat (map (replicate (nat W)) [1..H])) H W = Inr (map (replicate (nat W)) [1..H])"
    using assms by (simp add: reshape2_def length_concat_replicate len)
qed

lemma x_embed_eq:
  assumes "0 \<le> H" and "0 \<le> W"
  shows "np_full_rows (H, W) (np_arange 1 (W + 1)) = Inr (replicate (nat H) [1..W])"
  using assms by (simp add: np_full_rows_def np_arange_def)

lemma grid_eq:
  assumes "0 \<le> H" and "0 \<le> W"
  shows "concatenate_axis2
           (concatenate_axis2
              (sin_even (broadcast_div (map (replicate (nat W)) [1..H]) (div_term F)))
              (sin_uneven (broadcast_div (map (replicate (nat W)) [1..H]) (div_term F))))
           (concatenate_axis2
              (sin_even (broadcast_div (replicate (nat H) [1..W]) (div_term F)))
              (sin_uneven (broadcast_div (replicate (nat H) [1..W]) (div_term F))))
         = encoding_grid H W F"
proof -
  have lenH: "nat H = length [1..H]" and lenW: "nat W = length [1..W]"
    using assms by simp_all
  have py: "concatenate_axis2
              (sin_even (broadcast_div (map (replicate (nat W)) [1..H]) (div_term F)))
              (sin_uneven (broadcast_div (map (replicate (nat W)) [1..H]) (div_term F)))
            = map (\<lambda>y. replicate (length [1..W]) (channel_block F y)) [1..H]"
    unfolding sin_even_uneven
    by (simp add: broadcast_div_def channel_block_def Let_def comp_def lenW [symmetric])
  have px: "concatenate_axis2
              (sin_even (broadcast_div (replicate (nat H) [1..W]) (div_term F)))
              (sin_uneven (broadcast_div (replicate (nat H) [1..W]) (div_term F)))
            = replicate (length [1..H]) (map (channel_block F) [1..W])"
    unfolding sin_even_uneven
    by (simp add: broadcast_div_def channel_block_def Let_def comp_def lenH [symmetric])
  have "concatenate_axis2
          (map (\<lambda>y. replicate (length [1..W]) (channel_block F y)) [1..H])
          (replicate (length [1..H]) (map (channel_block F) [1..W]))
        = map (\<lambda>y. map2 (@) (replicate (length [1..W]) (channel_block F y))
                      (map (channel_block F) [1..W])) [1..H]"
    unfolding concatenate_axis2_def by (rule map2_replicate_right)
  also have "\<dots> = encoding_grid H W F"
    unfolding encoding_grid_def map2_replicate_left ..
  finally show ?thesis
    unfolding py px .
qed

lemma create_positional_encodings_closed_form:
  "create_positional_encodings [H, W, c] F B =
     (if H < 0 \<or> W < 0 \<or> B < 0 then Inl ValueError
      else Inr (replicate (nat B) (concat (encoding_grid H W F))))"
proof (cases "W < 0")
  case True
  then show ?thesis
    by (simp add: create_positional_encodings_def np_repeat_def)
next
  case W: False
  show ?thesis
  proof (cases "H < 0")
    case True
    with W show ?thesis
      by (simp add: create_positional_encodings_def np_repeat_def reshape2_def)
  next
    case H: False
    from H W have nn: "0 \<le> H" "0 \<le> W" by simp_all
    have "create_positional_encodings [H, W, c] F B =
            (case np_repeat [encoding_grid H W F] B of
               Inl e \<Rightarrow> Inl e
             | Inr repeated_encodings \<Rightarrow> Inr (map concat repeated_encodings))"
      by (simp add: create_positional_encodings_def y_embed_eq [OF nn] x_embed_eq [OF nn]
          grid_eq [OF nn] Let_def)
    then show ?thesis
      using H W by (simp add: np_repeat_def)
  qed
qed

lemma length_step2: "length (step2 xs) = (length xs + 1) div 2"
  by (induction xs rule: step2.induct) simp_all

lemma nth_step2: "j < length (step2 xs) \<Longrightarrow> step2 xs ! j = xs ! (2 * j)"
proof (induction xs arbitrary: j rule: step2.induct)
  case 1
  then show ?case by simp
next
  case (2 x)
  then show ?case by simp
next
  case (3 x y xs)
  then show ?case by (cases j) simp_all
qed

lemma length_step2_tl: "length (step2 (tl xs)) = length xs div 2"
  by (cases xs) (simp_all add: length_step2)

lemma nth_step2_tl: "j < length xs div 2 \<Longrightarrow> step2 (tl xs) ! j = xs ! (2 * j + 1)"
proof -
  assume j: "j < length xs div 2"
  then have "j < length (step2 (tl xs))" by (simp add: length_step2_tl)
  then have "step2 (tl xs) ! j = tl xs ! (2 * j)" by (rule nth_step2)
  also from j have "\<dots> = xs ! Suc (2 * j)"
    by (intro nth_tl) simp
  finally show ?thesis by simp
qed

lemma length_div_term: "length (div_term F) = nat F"
  by (simp add: div_term_def np_arange_def)

lemma nth_div_term:
  assumes "i < nat F"
  shows "div_term F ! i = 10000 powr (2 * real (i div 2) / real_of_int F)"
proof -
  from assms have "[0..F - 1] ! i = int i"
    by (simp add: nth_upto)
  moreover have "int i div 2 = int (i div 2)"
    by (simp add: zdiv_int)
  ultimately show ?thesis
    using assms by (simp add: div_term_def np_arange_def)
qed

lemma length_channel_block: "length (channel_block F p) = nat F"
proof -
  define pos where "pos = map (\<lambda>d. real_of_int p / d) (div_term F)"
  have len: "length pos = nat F"
    by (simp add: pos_def length_div_term)
  have "channel_block F p = map sin (step2 pos) @ map sin (step2 (tl pos))"
    by (simp add: channel_block_def pos_def Let_def)
  moreover have "length (step2 pos) = (nat F + 1) div 2"
    by (simp add: length_step2 len)
  moreover have "length (step2 (tl pos)) = nat F div 2"
    by (simp only: length_step2_tl len)
  ultimately have "length (channel_block F p) = (nat F + 1) div 2 + nat F div 2"
    by simp
  moreover have "(n + 1) div 2 + n div 2 = n" for n :: nat
    by presburger
  ultimately show ?thesis by simp
qed

lemma nth_channel_block:
  assumes "j < nat F"
  shows "channel_block F p ! j
           = sin (real_of_int p / (div_term F ! even_then_uneven (nat F) j))"
proof -
  define pos where "pos = map (\<lambda>d. real_of_int p / d) (div_term F)"
  have len: "length pos = nat F"
    by (simp add: pos_def length_div_term)
  have cb: "channel_block F p = map sin (step2 pos) @ map sin (step2 (tl pos))"
    by (simp add: channel_block_def pos_def Let_def)
  show ?thesis
  proof (cases "j < (nat F + 1) div 2")
    case True
    then have "channel_block F p ! j = sin (pos ! (2 * j))"
      by (simp add: cb nth_append length_step2 len nth_step2)
    moreover from True assms have "2 * j < nat F" by simp
    ultimately show ?thesis
      using True by (simp add: pos_def even_then_uneven_def length_div_term)
  next
    case False
    define i where "i = j - (nat F + 1) div 2"
    from False assms have i: "i < nat F div 2" and j: "j = (nat F + 1) div 2 + i"
      by (simp_all add: i_def)
    have "channel_block F p ! j = map sin (step2 (tl pos)) ! i"
      by (simp add: cb nth_append length_step2 len j)
    also have "\<dots> = sin (pos ! (2 * i + 1))"
      using i by (simp add: length_step2_tl len nth_step2_tl)
    finally have "channel_block F p ! j = sin (pos ! (2 * i + 1))" .
    moreover from i have "2 * i + 1 < nat F" by simp
    ultimately show ?thesis
      using False by (simp add: pos_def even_then_uneven_def length_div_term i_def)
  qed
qed

lemma nth_concat_uniform:
  assumes "\<forall>xs \<in> set xss. length xs = n" and "i < length xss" and "j < n"
  shows "concat xss ! (i * n + j) = xss ! i ! j"
  using assms
proof (induction xss arbitrary: i)
  case Nil
  then show ?case by simp
next
  case (Cons xs xss)
  show ?case
  proof (cases i)
    case 0
    with Cons.prems show ?thesis by (simp add: nth_append)
  next
    case (Suc k)
    with Cons.prems have "concat xss ! (k * n + j) = xss ! k ! j"
      by (intro Cons.IH) simp_all
    with Suc Cons.prems show ?thesis
      by (simp add: nth_append add.assoc)
  qed
qed

lemma length_concat_uniform:
  "\<forall>xs \<in> set xss. length xs = n \<Longrightarrow> length (concat xss) = length xss * n"
  by (induction xss) simp_all

lemma encoding_grid_rows: "\<forall>row \<in> set (encoding_grid H W F). length row = nat W"
  by (auto simp: encoding_grid_def)

lemma length_encoding_grid: "length (encoding_grid H W F) = nat H"
  by (simp add: encoding_grid_def)

lemma length_concat_encoding_grid: "length (concat (encoding_grid H W F)) = nat H * nat W"
  using length_concat_uniform [OF encoding_grid_rows] by (simp add: length_encoding_grid)

lemma encoding_grid_cells:
  "\<forall>cell \<in> set (concat (encoding_grid H W F)). length cell = 2 * nat F"
  by (auto simp: encoding_grid_def length_channel_block)

lemma nth_encoding_grid:
  assumes "h < nat H" and "w < nat W"
  shows "concat (encoding_grid H W F) ! (h * nat W + w)
           = channel_block F (1 + int h) @ channel_block F (1 + int w)"
proof -
  have "concat (encoding_grid H W F) ! (h * nat W + w) = encoding_grid H W F ! h ! w"
    using assms by (intro nth_concat_uniform encoding_grid_rows) (simp_all add: length_encoding_grid)
  also have "\<dots> = channel_block F (1 + int h) @ channel_block F (1 + int w)"
    using assms by (simp add: encoding_grid_def nth_upto)
  finally show ?thesis .
qed

lemma channel_block_no_features: "F \<le> 0 \<Longrightarrow> channel_block F p = []"
  by (simp add: channel_block_def div_term_def np_arange_def)

lemma concat_constant_grid:
  "concat (map (\<lambda>y. map (\<lambda>x. a) xs) ys) = replicate (length ys * length xs) a"
  by (induction ys) (simp_all add: replicate_add map_replicate_const)

text \<open>
  Claim C4, amended. For a grid of \<open>H\<close> by \<open>W\<close> cells, \<open>F\<close> features and a batch of
  \<open>B\<close>, the row at flattened index \<open>h * W + w\<close> of every batch slice holds the
  \<open>pos_y\<close> block in channels \<open>0, ..., F - 1\<close> and the \<open>pos_x\<close> block in channels
  \<open>F, ..., 2 F - 1\<close>, and every channel is a sine. Within a block the channels are not in
  the order \<open>0, ..., F - 1\<close> of the divisors: channel \<open>j\<close> uses the divisor
  \<open>div(s)\<close> with \<open>s = even_then_uneven F j\<close>, that is, the even divisor channels first
  and the uneven ones after them; \<open>div(s) = 10000 powr (2 * (s div 2) / F)\<close> as claimed.
\<close>

theorem positional_encoding_channels:
  assumes "h < H" and "w < W" and "j < F" and "b < B"
  shows "\<exists>T. create_positional_encodings [int H, int W, c] (int F) (int B) = Inr T
           \<and> T ! b ! (h * W + w) ! j
               = sin (real (h + 1) / (div_term (int F) ! even_then_uneven F j))
           \<and> T ! b ! (h * W + w) ! (F + j)
               = sin (real (w + 1) / (div_term (int F) ! even_then_uneven F j))
           \<and> even_then_uneven F j < F
           \<and> div_term (int F) ! even_then_uneven F j
               = 10000 powr (2 * real (even_then_uneven F j div 2) / real F)"
proof -
  let ?T = "replicate B (concat (encoding_grid (int H) (int W) (int F)))"
  have run: "create_positional_encodings [int H, int W, c] (int F) (int B) = Inr ?T"
    by (simp add: create_positional_encodings_closed_form)
  have cell: "?T ! b ! (h * W + w)
                = channel_block (int F) (1 + int h) @ channel_block (int F) (1 + int w)"
    using assms nth_encoding_grid [of h "int H" w "int W" "int F"] by simp
  have len: "length (channel_block (int F) (1 + int h)) = F"
    by (simp add: length_channel_block)
  have y: "?T ! b ! (h * W + w) ! j
             = sin (real (h + 1) / (div_term (int F) ! even_then_uneven F j))"
  proof -
    have "?T ! b ! (h * W + w) ! j = channel_block (int F) (1 + int h) ! j"
      unfolding cell using assms(3) by (simp add: nth_append len)
    also have "\<dots> = sin (real_of_int (1 + int h) / (div_term (int F) ! even_then_uneven F j))"
      using assms(3) nth_channel_block [of j "int F" "1 + int h"] by simp
    also have "real_of_int (1 + int h) = real (h + 1)"
      by simp
    finally show ?thesis .
  qed
  have x: "?T ! b ! (h * W + w) ! (F + j)
             = sin (real (w + 1) / (div_term (int F) ! even_then_uneven F j))"
  proof -
    have "?T ! b ! (h * W + w) ! (F + j) = channel_block (int F) (1 + int w) ! j"
      unfolding cell by (simp add: nth_append len)
    also have "\<dots> = sin (real_of_int (1 + int w) / (div_term (int F) ! even_then_uneven F j))"
      using assms(3) nth_channel_block [of j "int F" "1 + int w"] by simp
    also have "real_of_int (1 + int w) = real (w + 1)"
      by simp
    finally show ?thesis .
  qed
  have src: "even_then_uneven F j < F"
    using assms(3) by (simp add: even_then_uneven_def) presburger
  then have d: "div_term (int F) ! even_then_uneven F j
                  = 10000 powr (2 * real (even_then_uneven F j div 2) / real F)"
    using nth_div_term [of "even_then_uneven F j" "int F"] by simp
  from run y x src d show ?thesis by blast
qed

lemma powr_half_10000: "10000 powr (1 / 2) = (100 :: real)"
proof -
  have "sqrt 10000 = (100 :: real)"
    by (rule real_sqrt_unique) simp_all
  then show ?thesis
    by (simp add: powr_half_sqrt)
qed

lemma div_term_4: "div_term 4 = [1, 1, 100, 100]"
proof -
  have "np_arange 0 4 = [0, 1, 2, 3]"
    unfolding np_arange_def by code_simp
  then show ?thesis
    by (simp add: div_term_def powr_half_10000)
qed

lemma channel_block_4_1: "channel_block 4 1 = [sin 1, sin (1 / 100), sin 1, sin (1 / 100)]"
  by (simp add: channel_block_def div_term_4)

lemma sin_hundredth_less: "sin (1 / 100) < sin (1 :: real)"
proof (rule sin_monotone_2pi)
  have "2 \<le> pi" by (rule pi_ge_two)
  then show "- (pi / 2) \<le> 1 / 100" and "(1 :: real) \<le> pi / 2"
    by simp_all
  show "1 / 100 < (1 :: real)" by simp
qed

text \<open>
  Claim C4, as stated, fails for four features: on a grid of one cell, channel 1 of the
  row is \<open>sin (1 / 100)\<close>, the sine over the divisor of channel 2, where the claim
  has \<open>sin ((h + 1) / div(1))\<close> with \<open>div(1) = 10000 powr (2 * (1 div 2) / 4) = 1\<close>.
\<close>

theorem positional_encoding_channel_order_counterexample:
  "create_positional_encodings [1, 1, 1] 4 1
     = Inr [[[sin 1, sin (1 / 100), sin 1, sin (1 / 100),
              sin 1, sin (1 / 100), sin 1, sin (1 / 100)]]]
   \<and> sin (1 / 100) \<noteq> sin ((0 + 1) / 10000 powr (2 * real (1 div 2) / 4))"
proof -
  have "encoding_grid 1 1 4 = [[channel_block 4 1 @ channel_block 4 1]]"
    by (simp add: encoding_grid_def)
  then have "create_positional_encodings [1, 1, 1] 4 1
     = Inr [[[sin 1, sin (1 / 100), sin 1, sin (1 / 100),
              sin 1, sin (1 / 100), sin 1, sin (1 / 100)]]]"
    by (simp add: create_positional_encodings_closed_form channel_block_4_1)
  moreover have "sin (1 / 100) \<noteq> sin ((0 + 1) / 10000 powr (2 * real (1 div 2) / 4))"
    using sin_hundredth_less by simp
  ultimately show ?thesis by simp
qed

text \<open>
  Claim C4, witness. The same grid of one cell with four features: channels 1 and 5 are
  \<open>sin (1 / 100)\<close>.
\<close>

theorem positional_encoding_channels_witness:
  "\<exists>T. create_positional_encodings [1, 1, 1] 4 1 = Inr T
        \<and> T ! 0 ! 0 ! 1 = sin (1 / 100)
        \<and> T ! 0 ! 0 ! 5 = sin (1 / 100)"
proof -
  have src: "even_then_uneven 4 1 = 2"
    by (simp add: even_then_uneven_def)
  have d: "div_term (int 4) ! 2 = 100"
    by (simp add: div_term_4)
  from positional_encoding_channels [of 0 1 0 1 1 4 0 1 1]
  obtain T where run: "create_positional_encodings [int 1, int 1, 1] (int 4) (int 1) = Inr T"
    and y: "T ! 0 ! (0 * 1 + 0) ! 1 = sin (real (0 + 1) / (div_term (int 4) ! even_then_uneven 4 1))"
    and x: "T ! 0 ! (0 * 1 + 0) ! (4 + 1) = sin (real (0 + 1) / (div_term (int 4) ! even_then_uneven 4 1))"
    by auto
  from y [unfolded src d] have "T ! 0 ! 0 ! 1 = sin (1 / 100)"
    by simp
  moreover from x [unfolded src d] have "T ! 0 ! 0 ! 5 = sin (1 / 100)"
    by simp
  moreover from run have "create_positional_encodings [1, 1, 1] 4 1 = Inr T"
    by simp
  ultimately show ?thesis by blast
qed

text \<open>
  Claim C6. For every grid height \<open>H\<close>, width \<open>W\<close>, feature count \<open>F\<close> (even or odd)
  and batch size \<open>B\<close>, \<open>create_positional_encodings\<close> returns a tensor of shape
  \<open>[B, H * W, 2 * F]\<close>: \<open>B\<close> slices of \<open>H * W\<close> rows of \<open>2 * F\<close> channels.
\<close>

theorem positional_encoding_shape:
  "\<exists>T. create_positional_encodings [int H, int W, c] (int F) (int B) = Inr T
        \<and> length T = B
        \<and> (\<forall>grid \<in> set T. length grid = H * W \<and> (\<forall>row \<in> set grid. length row = 2 * F))"
proof -
  let ?g = "concat (encoding_grid (int H) (int W) (int F))"
  have "create_positional_encodings [int H, int W, c] (int F) (int B) = Inr (replicate B ?g)"
    by (simp add: create_positional_encodings_closed_form)
  moreover have "length (replicate B ?g) = B"
    by simp
  moreover have "length ?g = H * W"
    by (simp add: length_concat_encoding_grid)
  moreover have "\<forall>row \<in> set ?g. length row = 2 * F"
    using encoding_grid_cells [of "int H" "int W" "int F"] by simp
  ultimately show ?thesis
    by (intro exI [of _ "replicate B ?g"]) auto
qed

text \<open>
  Claim C6, witness. The specification's third example, shape \<open>[1, 4, 4]\<close>,
  and an odd feature count: three features give six channels.
\<close>

theorem positional_encoding_shape_witness:
  "(\<exists>T. create_positional_encodings [2, 2, 2048] 2 1 = Inr T
         \<and> length T = 1 \<and> length (T ! 0) = 4 \<and> length (T ! 0 ! 0) = 4 \<and> length (T ! 0 ! 3) = 4)
   \<and> (\<exists>T. create_positional_encodings [2, 2, 2048] 3 1 = Inr T
         \<and> length T = 1 \<and> length (T ! 0) = 4 \<and> length (T ! 0 ! 0) = 6 \<and> length (T ! 0 ! 3) = 6)"
proof -
  have even: "\<exists>T. create_positional_encodings [2, 2, 2048] 2 1 = Inr T
         \<and> length T = 1 \<and> length (T ! 0) = 4 \<and> length (T ! 0 ! 0) = 4 \<and> length (T ! 0 ! 3) = 4"
  proof -
    from positional_encoding_shape [of 2 2 2048 2 1]
    obtain T where run: "create_positional_encodings [int 2, int 2, 2048] (int 2) (int 1) = Inr T"
      and len: "length T = 1"
      and grids: "\<forall>grid \<in> set T. length grid = 2 * 2 \<and> (\<forall>row \<in> set grid. length row = 2 * 2)"
      by blast
    from len have "T ! 0 \<in> set T" by simp
    with grids have g: "length (T ! 0) = 4" and rows: "\<forall>row \<in> set (T ! 0). length row = 4"
      by simp_all
    from g have "T ! 0 ! 0 \<in> set (T ! 0)" "T ! 0 ! 3 \<in> set (T ! 0)" by simp_all
    with rows have "length (T ! 0 ! 0) = 4" "length (T ! 0 ! 3) = 4" by simp_all
    with run len g show ?thesis by simp
  qed
  have odd: "\<exists>T. create_positional_encodings [2, 2, 2048] 3 1 = Inr T
         \<and> length T = 1 \<and> length (T ! 0) = 4 \<and> length (T ! 0 ! 0) = 6 \<and> length (T ! 0 ! 3) = 6"
  proof -
    from positional_encoding_shape [of 2 2 2048 3 1]
    obtain T where run: "create_positional_encodings [int 2, int 2, 2048] (int 3) (int 1) = Inr T"
      and len: "length T = 1"
      and grids: "\<forall>grid \<in> set T. length grid = 2 * 2 \<and> (\<forall>row \<in> set grid. length row = 2 * 3)"
      by blast
    from len have "T ! 0 \<in> set T" by simp
    with grids have g: "length (T ! 0) = 4" and rows: "\<forall>row \<in> set (T ! 0). length row = 6"
      by simp_all
    from g have "T ! 0 ! 0 \<in> set (T ! 0)" "T ! 0 ! 3 \<in> set (T ! 0)" by simp_all
    with rows have "length (T ! 0 ! 0) = 6" "length (T ! 0 ! 3) = 6" by simp_all
    with run len g show ?thesis by simp
  qed
  from even odd show ?thesis by simp
qed

lemma create_positional_encodings_slices:
  assumes "create_positional_encodings [H, W, c] F B = Inr T"
  shows "T = replicate (nat B) (concat (encoding_grid H W F))"
  using assms by (simp add: create_positional_encodings_closed_form split: if_splits)

lemma feeder_call_positional_encodings:
  assumes "feeder_call self batch_labels = Inr (batch_cls, batch_bbox, obj_indices, pe)"
  shows "pe = positional_encodings self"
  using assms by (auto simp: feeder_call_def split: sum.splits prod.splits)

text \<open>
  Claim C5. The tensor is determined by the grid height, the grid width and the feature
  count: whenever two calls with the same \<open>(H, W, F)\<close> return tensors, whatever their
  batch sizes and whatever the third component of the shape, every batch slice of the one
  equals every batch slice of the other; in particular every slice \<open>b\<close> of a tensor
  equals its slice 0, and the tensor has as many slices as the batch size. The function
  takes no label data, and the batch call of a feeder returns the tensor stored at
  construction, whatever labels the batch holds.
\<close>

theorem positional_encodings_depend_on_grid_only:
  "(create_positional_encodings [H, W, c] F B = Inr T
      \<and> create_positional_encodings [H, W, c'] F B' = Inr T'
      \<and> b < length T \<and> b' < length T'
    \<longrightarrow> length T = nat B \<and> T ! b = T ! 0 \<and> T ! b = T' ! b')
   \<and> (feeder_call self batch_labels = Inr (batch_cls, batch_bbox, obj_indices, pe)
    \<longrightarrow> pe = positional_encodings self)"
proof (intro conjI impI)
  assume a: "create_positional_encodings [H, W, c] F B = Inr T
      \<and> create_positional_encodings [H, W, c'] F B' = Inr T'
      \<and> b < length T \<and> b' < length T'"
  then have r: "create_positional_encodings [H, W, c] F B = Inr T"
    and r': "create_positional_encodings [H, W, c'] F B' = Inr T'"
    by simp_all
  have T: "T = replicate (nat B) (concat (encoding_grid H W F))"
    using r by (rule create_positional_encodings_slices)
  have T': "T' = replicate (nat B') (concat (encoding_grid H W F))"
    using r' by (rule create_positional_encodings_slices)
  from T show "length T = nat B" by simp
  from a T have b: "b < nat B" by simp
  then have "0 < nat B" by simp
  with b T show "T ! b = T ! 0" by simp
  from a T T' show "T ! b = T' ! b'" by simp
next
  assume "feeder_call self batch_labels = Inr (batch_cls, batch_bbox, obj_indices, pe)"
  then show "pe = positional_encodings self"
    by (rule feeder_call_positional_encodings)
qed

text \<open>
  Claim C5, witness. A grid of one cell with one feature, with batch sizes 2 and 1 and
  different third components, and a batch call on one sample with one object.
\<close>

theorem positional_encodings_depend_on_grid_only_witness:
  "create_positional_encodings [1, 1, 3] 1 2 = Inr [[[sin 1, sin 1]], [[sin 1, sin 1]]]
   \<and> create_positional_encodings [1, 1, 5] 1 1 = Inr [[[sin 1, sin 1]]]
   \<and> [[[sin 1, sin 1]], [[sin 1, sin 1]]] ! 1 = [[[sin 1, sin (1 :: real)]]] ! 0
   \<and> feeder_call \<lparr>num_queries = 2, num_classes = 4, positional_encodings = [[[sin 1, sin 1]]]\<rparr>
         [[[0, 0.5, 0.5, 0.2, 0.2]]]
       = Inr ([[[0], [4]]], [[[0.5, 0.5, 0.2, 0.2], [4, 4, 4, 4]]], [[0]], [[[sin 1, sin 1]]])"
proof -
  let ?T = "[[[sin 1, sin 1]], [[sin 1, sin (1 :: real)]]]"
  let ?T' = "[[[sin 1, sin (1 :: real)]]]"
  let ?self = "\<lparr>num_queries = 2, num_classes = 4, positional_encodings = ?T'\<rparr>"
  have d: "div_term 1 = [1]"
    by (simp add: div_term_def np_arange_def)
  have g: "encoding_grid 1 1 1 = [[[sin 1, sin 1]]]"
    by (simp add: encoding_grid_def channel_block_def d)
  have r1: "create_positional_encodings [1, 1, 3] 1 2 = Inr ?T"
    by (simp add: create_positional_encodings_closed_form g numeral_2_eq_2)
  have r2: "create_positional_encodings [1, 1, 5] 1 1 = Inr ?T'"
    by (simp add: create_positional_encodings_closed_form g)
  have enc: "labels_to_targets [[0, 0.5, 0.5, 0.2, 0.2]] 2 4
               = Inr ([[0], [4]], [[0.5, 0.5, 0.2, 0.2], [4, 4, 4, 4]])"
    by (simp add: labels_to_targets_def np_full_def setitem_row_scalar_def setitem_row_def
        numeral_eq_Suc)
  have idx: "retrieve_obj_indices [[[0], [4]]] = Inr [[0]]"
    by (simp add: retrieve_obj_indices_def np_where_rows_def)
  have call: "feeder_call ?self [[[0, 0.5, 0.5, 0.2, 0.2]]]
       = Inr ([[[0], [4]]], [[[0.5, 0.5, 0.2, 0.2], [4, 4, 4, 4]]], [[0]], positional_encodings ?self)"
    by (simp add: feeder_call_def enc [simplified] idx [simplified])
  note inst = positional_encodings_depend_on_grid_only
    [of 1 1 3 1 2 ?T 5 1 ?T' 1 0 ?self "[[[0, 0.5, 0.5, 0.2, 0.2]]]"
        "[[[0], [4]]]" "[[[0.5, 0.5, 0.2, 0.2], [4, 4, 4, 4]]]" "[[0]]" "positional_encodings ?self"]
  from inst r1 r2 have "?T ! 1 = ?T' ! 0"
    by simp
  moreover from inst call have "positional_encodings ?self = positional_encodings ?self"
    by blast
  ultimately show ?thesis
    using r1 r2 call by simp
qed

text \<open>
  Claim C8, as stated, fails: a feature count of zero, a grid of zero height and a grid of
  zero width each produce a tensor, and so does the constructor's call with
  \<open>dim_transformer = 1\<close>.
\<close>

theorem create_positional_encodings_accepts_empty_counterexample:
  "create_positional_encodings [2, 2, 2048] 0 1 = Inr [[[], [], [], []]]
   \<and> create_positional_encodings [0, 2, 2048] 2 1 = Inr [[]]
   \<and> create_positional_encodings [2, 0, 2048] 2 1 = Inr [[]]
   \<and> init_positional_encodings [2, 2, 2048] 1 1 = Inr [[[], [], [], []]]"
proof -
  have u: "[1..2] = [1, 2 :: int]"
    by code_simp
  have "encoding_grid 2 2 0 = [[[], []], [[], []]]"
    by (simp add: encoding_grid_def channel_block_no_features u)
  moreover have "encoding_grid 0 2 2 = []" "concat (encoding_grid 2 0 2) = []"
    by (simp_all add: encoding_grid_def)
  ultimately show ?thesis
    by (simp add: init_positional_encodings_def create_positional_encodings_closed_form)
qed

lemma encoding_grid_no_features:
  assumes "F \<le> 0" and "0 \<le> H" and "0 \<le> W"
  shows "concat (encoding_grid H W F) = replicate (nat (H * W)) []"
proof -
  have "concat (encoding_grid H W F) = replicate (length [1..H] * length [1..W]) []"
    using assms(1) by (simp add: encoding_grid_def channel_block_no_features concat_constant_grid)
  also have "length [1..H] * length [1..W] = nat (H * W)"
    using assms(2,3) by (simp add: nat_mult_distrib)
  finally show ?thesis .
qed

lemma encoding_grid_no_cells:
  assumes "H = 0 \<or> W = 0"
  shows "concat (encoding_grid H W F) = []"
  using assms by (auto simp: encoding_grid_def)

text \<open>
  Claim C8, amended. The function validates nothing. With a non-negative height, width
  and batch size, a feature count \<open>F \<le> 0\<close> is not rejected: the result is a tensor of
  shape \<open>[B, H * W, 0]\<close>, rows without channels. A grid of zero height or zero width is
  not rejected either: the result is a tensor of shape \<open>[B, 0, 2 F]\<close>, slices without
  rows. The constructor's call with \<open>dim_transformer \<le> 1\<close> passes a feature count
  \<open>\<le> 0\<close> and gets the tensor without channels.
\<close>

theorem create_positional_encodings_no_validation:
  assumes "0 \<le> H" and "0 \<le> W" and "0 \<le> B"
  shows "(F \<le> 0 \<longrightarrow>
            create_positional_encodings [H, W, c] F B
              = Inr (replicate (nat B) (replicate (nat (H * W)) [])))
       \<and> (H = 0 \<or> W = 0 \<longrightarrow>
            create_positional_encodings [H, W, c] F B = Inr (replicate (nat B) []))
       \<and> (D \<le> 1 \<longrightarrow>
            init_positional_encodings [H, W, c] D B
              = Inr (replicate (nat B) (replicate (nat (H * W)) [])))"
proof (intro conjI impI)
  assume "F \<le> 0"
  with assms show "create_positional_encodings [H, W, c] F B
              = Inr (replicate (nat B) (replicate (nat (H * W)) []))"
    by (simp add: create_positional_encodings_closed_form encoding_grid_no_features)
next
  assume "H = 0 \<or> W = 0"
  with assms show "create_positional_encodings [H, W, c] F B = Inr (replicate (nat B) [])"
    by (simp add: create_positional_encodings_closed_form encoding_grid_no_cells)
next
  assume "D \<le> 1"
  then have "D div 2 \<le> 0" by simp
  with assms show "init_positional_encodings [H, W, c] D B
              = Inr (replicate (nat B) (replicate (nat (H * W)) []))"
    by (simp add: init_positional_encodings_def create_positional_encodings_closed_form
        encoding_grid_no_features)
qed

text \<open>
  Claim C8, witness. Minus three features on a two by two grid, a grid of height zero, and
  a constructor call with \<open>dim_transformer = 1\<close>, each with a batch of two.
\<close>

theorem create_positional_encodings_no_validation_witness:
  "create_positional_encodings [2, 2, 2048] (- 3) 2 = Inr [[[], [], [], []], [[], [], [], []]]
   \<and> create_positional_encodings [0, 7, 2048] 128 2 = Inr [[], []]
   \<and> init_positional_encodings [2, 2, 2048] 1 2 = Inr [[[], [], [], []], [[], [], [], []]]"
proof -
  have nn: "(0 :: int) \<le> 2" "(0 :: int) \<le> 0" "(0 :: int) \<le> 7"
    by simp_all
  have r: "replicate (nat 2) (replicate (nat (2 * 2)) ([] :: real list))
             = [[[], [], [], []], [[], [], [], []]]"
      "replicate (nat 2) ([] :: real list list) = [[], []]"
    by (simp_all add: numeral_eq_Suc)
  from create_positional_encodings_no_validation [OF nn(1) nn(1) nn(1), of "- 3" 2048 1]
  have a: "create_positional_encodings [2, 2, 2048] (- 3) 2 = Inr [[[], [], [], []], [[], [], [], []]]"
    and c: "init_positional_encodings [2, 2, 2048] 1 2 = Inr [[[], [], [], []], [[], [], [], []]]"
    unfolding r by simp_all
  from create_positional_encodings_no_validation [OF nn(2) nn(3) nn(1), of 128 2048 1]
  have b: "create_positional_encodings [0, 7, 2048] 128 2 = Inr [[], []]"
    unfolding r by simp
  from a b c show ?thesis by simp
qed

text \<open>
  Claim C10. A shape that does not have exactly three components makes the destructuring
  fail with ValueError; so does the two-component shape \<open>[H, W]\<close> of the docstring, also
  in the constructor's call. With three components the third has no influence on the
  result.
\<close>

theorem create_positional_encodings_needs_three_components:
  "(length fm_shape \<noteq> 3 \<longrightarrow> create_positional_encodings fm_shape F B = Inl ValueError)
   \<and> create_positional_encodings [H, W] F B = Inl ValueError
   \<and> init_positional_encodings [H, W] D B = Inl ValueError
   \<and> create_positional_encodings [H, W, c] F B = create_positional_encodings [H, W, c'] F B"
proof (intro conjI impI)
  assume "length fm_shape \<noteq> 3"
  then show "create_positional_encodings fm_shape F B = Inl ValueError"
    by (auto simp: create_positional_encodings_def split: list.splits)
next
  show "create_positional_encodings [H, W] F B = Inl ValueError"
    by (simp add: create_positional_encodings_def)
next
  show "init_positional_encodings [H, W] D B = Inl ValueError"
    by (simp add: init_positional_encodings_def create_positional_encodings_def)
next
  show "create_positional_encodings [H, W, c] F B = create_positional_encodings [H, W, c'] F B"
    by (simp add: create_positional_encodings_closed_form)
qed

text \<open>
  Claim C10, witness. A two-component and a four-component shape, and two shapes that
  differ in the third component only.
\<close>

theorem create_positional_encodings_needs_three_components_witness:
  "create_positional_encodings [7, 7] 128 2 = Inl ValueError
   \<and> create_positional_encodings [7, 7, 2048, 1] 128 2 = Inl ValueError
   \<and> create_positional_encodings [7, 7, 2048] 128 2 = create_positional_encodings [7, 7, 0] 128 2"
proof -
  have l: "length [7, 7 :: int] \<noteq> 3" "length [7, 7, 2048, 1 :: int] \<noteq> 3"
    by simp_all
  from create_positional_encodings_needs_three_components [of "[7, 7]" 128 2 7 7 256 2048 0] l(1)
  have a: "create_positional_encodings [7, 7] 128 2 = Inl ValueError"
    and c: "create_positional_encodings [7, 7, 2048] 128 2 = create_positional_encodings [7, 7, 0] 128 2"
    by blast+
  from create_positional_encodings_needs_three_components [of "[7, 7, 2048, 1]" 128 2 7 7 256 2048 0] l(2)
  have b: "create_positional_encodings [7, 7, 2048, 1] 128 2 = Inl ValueError"
    by blast
  from a b c show ?thesis by blast
qed

section \<open>Properties of loadlabel\<close>

text \<open>
  Claim C9. When the parsed label data is a flat vector of five elements (a file with one
  object), \<open>loadlabel\<close> returns the 2-d array with that vector as its only row, of shape
  \<open>[1, 5]\<close>. A 2-d array (a file with several objects) is returned as it is, so rows of
  five columns give shape \<open>[#Objects, 5]\<close>.
\<close>

theorem loadlabel_single_object:
  "(length vs = 5 \<longrightarrow> loadlabel (Array1 vs) = Inr (Array2 [vs]) \<and> shape (Array2 [vs]) = [1, 5])
   \<and> loadlabel (Array2 rows) = Inr (Array2 rows)
   \<and> (rows \<noteq> [] \<and> (\<forall>r \<in> set rows. length r = 5) \<longrightarrow> shape (Array2 rows) = [length rows, 5])"
  by (cases rows) (simp_all add: loadlabel_def)

text \<open>
  Claim C9, witness. One object and two objects.
\<close>

theorem loadlabel_single_object_witness:
  "loadlabel (Array1 [0, 0.5, 0.5, 0.2, 0.2]) = Inr (Array2 [[0, 0.5, 0.5, 0.2, 0.2]])
   \<and> shape (Array2 [[0, 0.5, 0.5, 0.2, 0.2]]) = [1, 5]
   \<and> loadlabel (Array2 [[0, 0.5, 0.5, 0.2, 0.2], [1, 0.1, 0.1, 0.05, 0.05]])
       = Inr (Array2 [[0, 0.5, 0.5, 0.2, 0.2], [1, 0.1, 0.1, 0.05, 0.05]])
   \<and> shape (Array2 [[0, 0.5, 0.5, 0.2, 0.2], [1, 0.1, 0.1, 0.05, 0.05]]) = [2, 5]"
proof -
  let ?v = "[0, 0.5, 0.5, 0.2, 0.2 :: real]"
  let ?rows = "[[0, 0.5, 0.5, 0.2, 0.2], [1, 0.1, 0.1, 0.05, 0.05 :: real]]"
  have h1: "length ?v = 5" by simp
  have h2: "?rows \<noteq> [] \<and> (\<forall>r \<in> set ?rows. length r = 5)" by simp
  from loadlabel_single_object [of ?v ?rows] h1 h2
  have "loadlabel (Array1 ?v) = Inr (Array2 [?v])" "shape (Array2 [?v]) = [1, 5]"
    "loadlabel (Array2 ?rows) = Inr (Array2 ?rows)" "shape (Array2 ?rows) = [length ?rows, 5]"
    by blast+
  then show ?thesis by simp
qed

end
